theory Spec2Isabelle
  imports Main "HOL-Library.Sublist"
begin

section \<open>LocalVCS: manifests and the hash-based comparison\<close>

text \<open>
  A Python \<open>dict\<close> is an association list read with \<open>map_of\<close>: the first binding
  of a key is the one in effect. A Python \<open>set\<close> is the duplicate-free list of its
  elements; the order in which Python iterates over a set is unspecified, so every
  statement below is about the set of elements of such a list, never about its order.
\<close>

type_synonym ('k, 'v) dict = "('k \<times> 'v) list"

definition dict_keys :: "('k, 'v) dict \<Rightarrow> 'k list" where
  "dict_keys d = remdups (map fst d)"

text \<open>
  A digest is the hex string of \<open>hashlib.md5(...).hexdigest()\<close>, or \<open>None\<close>: the value
  \<open>calculate_file_hash\<close> returns when reading fails (JSON \<open>null\<close> in the manifest).
\<close>

type_synonym digest = "string option"

text \<open>The manifest \<open>hash_data\<close> written by \<open>BackupThread.run\<close> as \<open>*_hashes.json\<close>.\<close>

record 'k manifest =
  backup_name :: string
  created_at :: string
  file_hashes :: "('k, digest) dict"
  total_files :: nat
  source_directory :: "string list"

text \<open>The dictionary \<open>differences\<close> with its four lists.\<close>

record 'k differences =
  added :: "'k list"
  removed :: "'k list"
  modified :: "'k list"
  unchanged :: "'k list"

text \<open>
  The loop \<open>for file in common_files\<close> of \<open>get_hash_based_differences\<close>. Both lookups
  are of keys present in both dictionaries, so neither raises \<open>KeyError\<close>; the two
  digests are compared with Python's \<open>!=\<close>, under which \<open>None\<close> equals \<open>None\<close>.
\<close>

fun classify_hashes ::
  "('k, digest) dict \<Rightarrow> ('k, digest) dict \<Rightarrow> 'k list \<Rightarrow> 'k differences \<Rightarrow> 'k differences" where
  "classify_hashes s c [] d = d"
| "classify_hashes s c (file # rest) d =
     (let source_hash = map_of s file; compare_hash = map_of c file
      in classify_hashes s c rest
           (if source_hash \<noteq> compare_hash
            then d\<lparr>modified := modified d @ [file]\<rparr>
            else d\<lparr>unchanged := unchanged d @ [file]\<rparr>))"

definition get_hash_based_differences :: "'k manifest \<Rightarrow> 'k manifest \<Rightarrow> 'k differences" where
  "get_hash_based_differences source_hashes compare_hashes =
     (let source_files = dict_keys (file_hashes source_hashes);
          compare_files = dict_keys (file_hashes compare_hashes);
          d = \<lparr>added = [f \<leftarrow> compare_files. f \<notin> set source_files],
               removed = [f \<leftarrow> source_files. f \<notin> set compare_files],
               modified = [], unchanged = []\<rparr>;
          common_files = [f \<leftarrow> source_files. f \<in> set compare_files]
      in classify_hashes (file_hashes source_hashes) (file_hashes compare_hashes) common_files d)"

text \<open>The keys of a manifest and the digest it records for a key.\<close>

definition keys :: "'k manifest \<Rightarrow> 'k set" where
  "keys m = set (dict_keys (file_hashes m))"

definition digest_of :: "'k manifest \<Rightarrow> 'k \<Rightarrow> digest option" where
  "digest_of m k = map_of (file_hashes m) k"

section \<open>The file system\<close>

text \<open>
  Paths are lists of components. The file system is a store from absolute paths to
  nodes, read with \<open>map_of\<close>. A regular file carries its bytes and whether \<open>open\<close>
  succeeds on it (a file can be listed and measured while reading it is refused).
\<close>

type_synonym path = "string list"
type_synonym bytes = string

datatype node = Dir | File (readable: bool) (content: bytes)

type_synonym filesystem = "(path \<times> node) list"

datatype error =
  FileNotFoundError | FileExistsError | NotADirectoryError | IsADirectoryError
  | PermissionError | BadZipFile | ShutilError

text \<open>The root directory \<open>[]\<close> always exists.\<close>

definition lookup :: "filesystem \<Rightarrow> path \<Rightarrow> node option" where
  "lookup fs p = (if p = [] then Some Dir else map_of fs p)"

definition path_exists :: "filesystem \<Rightarrow> path \<Rightarrow> bool" where
  "path_exists fs p = (lookup fs p \<noteq> None)"

definition isdir :: "filesystem \<Rightarrow> path \<Rightarrow> bool" where
  "isdir fs p = (lookup fs p = Some Dir)"

definition isfile :: "filesystem \<Rightarrow> path \<Rightarrow> bool" where
  "isfile fs p = (case lookup fs p of Some (File r c) \<Rightarrow> True | _ \<Rightarrow> False)"

text \<open>
  \<open>os.path.getsize\<close>. The size the system reports for a directory is not modelled (0
  stands for it): \<open>files_differ\<close> answers \<open>True\<close> for a directory whatever that size
  is, because \<open>open\<close> raises on it.
\<close>

definition getsize :: "filesystem \<Rightarrow> path \<Rightarrow> error + nat" where
  "getsize fs p =
     (case lookup fs p of
        None \<Rightarrow> Inl FileNotFoundError
      | Some Dir \<Rightarrow> Inr 0
      | Some (File r c) \<Rightarrow> Inr (length c))"

text \<open>\<open>open(path, 'rb')\<close> followed by reading the file to its end.\<close>

definition open_rb :: "filesystem \<Rightarrow> path \<Rightarrow> error + bytes" where
  "open_rb fs p =
     (case lookup fs p of
        None \<Rightarrow> Inl FileNotFoundError
      | Some Dir \<Rightarrow> Inl IsADirectoryError
      | Some (File r c) \<Rightarrow> if r then Inr c else Inl PermissionError)"

text \<open>
  The relative paths of the files \<open>os.walk(d)\<close> reports, as
  \<open>os.path.relpath(os.path.join(root, file), d)\<close>: every regular file below \<open>d\<close>.
\<close>

definition walk_files :: "filesystem \<Rightarrow> path \<Rightarrow> path list" where
  "walk_files fs d =
     remdups [drop (length d) q. q \<leftarrow> map fst fs, strict_prefix d q \<and> isfile fs q]"

section \<open>BackupThread: hashing\<close>

text \<open>
  \<open>calculate_file_hash\<close>: the file is read in chunks of 4096 bytes, each fed to
  \<open>hashlib.md5\<close>; \<open>h\<close> stands for the hex digest of the bytes fed, which for \<open>hashlib\<close>
  depends on their concatenation only. Any exception gives \<open>None\<close>.
\<close>

definition calculate_file_hash :: "(bytes \<Rightarrow> string) \<Rightarrow> filesystem \<Rightarrow> path \<Rightarrow> digest" where
  "calculate_file_hash h fs file_path =
     (case open_rb fs file_path of Inl e \<Rightarrow> None | Inr c \<Rightarrow> Some (h c))"

text \<open>The first loop of \<open>BackupThread.run\<close>: the dictionary \<open>file_hashes\<close>.\<close>

definition hash_tree :: "(bytes \<Rightarrow> string) \<Rightarrow> filesystem \<Rightarrow> path \<Rightarrow> (path, digest) dict" where
  "hash_tree h fs source_dir =
     [(rel_path, calculate_file_hash h fs (source_dir @ rel_path)).
        rel_path \<leftarrow> walk_files fs source_dir]"

section \<open>CompareThread: the legacy comparison of two directories\<close>

text \<open>The \<open>while True\<close> loop of \<open>files_differ\<close> over the bytes still unread.\<close>

function read_loop :: "bytes \<Rightarrow> bytes \<Rightarrow> bool" where
  "read_loop f1 f2 =
     (if take 8192 f1 \<noteq> take 8192 f2 then True
      else if take 8192 f1 = [] then False
      else read_loop (drop 8192 f1) (drop 8192 f2))"
  by pat_completeness auto
termination
proof (relation "measure (\<lambda>(f1, f2). length f1)")
  show "wf (measure (\<lambda>(f1 :: bytes, f2 :: bytes). length f1))"
    by simp
next
  fix f1 f2 :: bytes
  assume "\<not> take 8192 f1 \<noteq> take 8192 f2" and "take 8192 f1 \<noteq> []"
  then have "f1 \<noteq> []"
    by auto
  then show "((drop 8192 f1, drop 8192 f2), (f1, f2)) \<in> measure (\<lambda>(f1, f2). length f1)"
    by (cases f1) auto
qed

definition files_differ :: "filesystem \<Rightarrow> path \<Rightarrow> path \<Rightarrow> bool" where
  "files_differ fs file1_path file2_path =
     (case getsize fs file1_path of Inl e \<Rightarrow> True | Inr size1 \<Rightarrow>
      case getsize fs file2_path of Inl e \<Rightarrow> True | Inr size2 \<Rightarrow>
        if size1 \<noteq> size2 then True
        else
          (case open_rb fs file1_path of Inl e \<Rightarrow> True | Inr f1 \<Rightarrow>
           case open_rb fs file2_path of Inl e \<Rightarrow> True | Inr f2 \<Rightarrow>
             read_loop f1 f2))"

fun classify_files ::
  "filesystem \<Rightarrow> path \<Rightarrow> path \<Rightarrow> path list \<Rightarrow> path differences \<Rightarrow> path differences" where
  "classify_files fs dir1 dir2 [] d = d"
| "classify_files fs dir1 dir2 (file # rest) d =
     (let file1_path = dir1 @ file; file2_path = dir2 @ file
      in classify_files fs dir1 dir2 rest
           (if files_differ fs file1_path file2_path
            then d\<lparr>modified := modified d @ [file]\<rparr>
            else d\<lparr>unchanged := unchanged d @ [file]\<rparr>))"

definition get_directory_differences :: "filesystem \<Rightarrow> path \<Rightarrow> path \<Rightarrow> path differences" where
  "get_directory_differences fs dir1 dir2 =
     (let files1 = walk_files fs dir1;
          files2 = walk_files fs dir2;
          d = \<lparr>added = [f \<leftarrow> files2. f \<notin> set files1],
               removed = [f \<leftarrow> files1. f \<notin> set files2],
               modified = [], unchanged = []\<rparr>;
          common_files = [f \<leftarrow> files1. f \<in> set files2]
      in classify_files fs dir1 dir2 common_files d)"

text \<open>
  What the hash path computes on the same two trees: the manifests that hashing each
  tree gives, compared by \<open>get_hash_based_differences\<close>.
\<close>

definition tree_manifest :: "(bytes \<Rightarrow> string) \<Rightarrow> filesystem \<Rightarrow> path \<Rightarrow> path manifest" where
  "tree_manifest h fs d =
     \<lparr>backup_name = [], created_at = [], file_hashes = hash_tree h fs d,
      total_files = length (hash_tree h fs d), source_directory = d\<rparr>"

section \<open>BackupRestoreApp: labelling the lines of a text diff\<close>

text \<open>
  \<open>add_diff_to_widget\<close> appends one entry per diff line to the text widget, behind a
  marker: the heavy plus sign for an added line, the heavy minus sign for a removed
  line, the pushpin for a hunk header, the page for a file header, and two blanks for
  a context line. The widget is the list of the entries appended so far.
\<close>

datatype marker = AddedLine | RemovedLine | HunkHeader | FileHeader | ContextLine

definition diff_entry :: "string \<Rightarrow> marker \<times> string" where
  "diff_entry line =
     (if prefix ''+'' line then (AddedLine, drop 1 line)
      else if prefix ''-'' line then (RemovedLine, drop 1 line)
      else if prefix ''@'' line then (HunkHeader, line)
      else if prefix ''---'' line \<or> prefix ''+++'' line then (FileHeader, line)
      else (ContextLine, line))"

fun add_diff_to_widget :: "(marker \<times> string) list \<Rightarrow> string list \<Rightarrow> (marker \<times> string) list" where
  "add_diff_to_widget text_widget [] = text_widget"
| "add_diff_to_widget text_widget (line # diff_content) =
     add_diff_to_widget (text_widget @ [diff_entry line]) diff_content"

definition count_marker :: "marker \<Rightarrow> (marker \<times> string) list \<Rightarrow> nat" where
  "count_marker m text_widget = length [e \<leftarrow> text_widget. fst e = m]"

section \<open>Operations that change the file system\<close>

text \<open>
  An operation takes the file system and gives back either an error (the exception
  raised) or a value, and the file system it leaves behind.
\<close>

type_synonym 'a io = "filesystem \<Rightarrow> (error + 'a) \<times> filesystem"

definition io_return :: "'a \<Rightarrow> 'a io" where
  "io_return x fs = (Inr x, fs)"

definition io_raise :: "error \<Rightarrow> 'a io" where
  "io_raise e fs = (Inl e, fs)"

definition io_bind :: "'a io \<Rightarrow> ('a \<Rightarrow> 'b io) \<Rightarrow> 'b io" where
  "io_bind m k fs = (case m fs of (Inl e, fs') \<Rightarrow> (Inl e, fs') | (Inr x, fs') \<Rightarrow> k x fs')"

text \<open>\<open>os.remove\<close>.\<close>

definition os_remove :: "path \<Rightarrow> unit io" where
  "os_remove p fs =
     (case lookup fs p of
        None \<Rightarrow> (Inl FileNotFoundError, fs)
      | Some Dir \<Rightarrow> (Inl IsADirectoryError, fs)
      | Some (File r c) \<Rightarrow> (Inr (), [e \<leftarrow> fs. fst e \<noteq> p]))"

text \<open>\<open>shutil.rmtree\<close>: the directory and everything below it.\<close>

definition rmtree :: "path \<Rightarrow> unit io" where
  "rmtree p fs =
     (case lookup fs p of
        None \<Rightarrow> (Inl FileNotFoundError, fs)
      | Some (File r c) \<Rightarrow> (Inl NotADirectoryError, fs)
      | Some Dir \<Rightarrow> (Inr (), [e \<leftarrow> fs. \<not> prefix p (fst e)]))"

text \<open>\<open>os.mkdir\<close>.\<close>

definition mkdir :: "path \<Rightarrow> unit io" where
  "mkdir p fs =
     (if path_exists fs p then (Inl FileExistsError, fs)
      else case lookup fs (butlast p) of
        None \<Rightarrow> (Inl FileNotFoundError, fs)
      | Some (File r c) \<Rightarrow> (Inl NotADirectoryError, fs)
      | Some Dir \<Rightarrow> (Inr (), (p, Dir) # fs))"

text \<open>
  \<open>os.makedirs(name, exist_ok)\<close>: the missing ancestors are made first, then
  \<open>mkdir(name)\<close>, whose error is dropped when \<open>exist_ok\<close> holds and \<open>name\<close> is a
  directory.
\<close>

definition mkdir_exist_ok :: "path \<Rightarrow> bool \<Rightarrow> unit io" where
  "mkdir_exist_ok p exist_ok fs =
     (case mkdir p fs of
        (Inl e, fs') \<Rightarrow> if exist_ok \<and> isdir fs' p then (Inr (), fs') else (Inl e, fs')
      | (Inr u, fs') \<Rightarrow> (Inr (), fs'))"

function makedirs :: "path \<Rightarrow> bool \<Rightarrow> unit io" where
  "makedirs p exist_ok fs =
     (if p \<noteq> [] \<and> butlast p \<noteq> [] \<and> \<not> path_exists fs (butlast p)
      then (case makedirs (butlast p) exist_ok fs of
              (Inl e, fs') \<Rightarrow> (Inl e, fs')
            | (Inr u, fs') \<Rightarrow> mkdir_exist_ok p exist_ok fs')
      else mkdir_exist_ok p exist_ok fs)"
  by pat_completeness auto
termination
  by (relation "measure (\<lambda>(p, exist_ok, fs). length p)") auto

text \<open>\<open>os.listdir\<close>: the names directly below a directory.\<close>

definition listdir :: "path \<Rightarrow> string list io" where
  "listdir p fs =
     (case lookup fs p of
        None \<Rightarrow> (Inl FileNotFoundError, fs)
      | Some (File r c) \<Rightarrow> (Inl NotADirectoryError, fs)
      | Some Dir \<Rightarrow>
          (Inr (remdups [last q. q \<leftarrow> map fst fs, q \<noteq> [] \<and> butlast q = p]), fs))"

text \<open>
  \<open>open(path, 'w')\<close> followed by writing the bytes and closing. Write permission is
  not modelled: writing succeeds wherever the parent directory exists.
\<close>

definition write_file :: "path \<Rightarrow> bytes \<Rightarrow> unit io" where
  "write_file p data fs =
     (case lookup fs p of
        Some Dir \<Rightarrow> (Inl IsADirectoryError, fs)
      | Some (File r c) \<Rightarrow> (Inr (), (p, File r data) # [e \<leftarrow> fs. fst e \<noteq> p])
      | None \<Rightarrow>
          (case lookup fs (butlast p) of
             None \<Rightarrow> (Inl FileNotFoundError, fs)
           | Some (File r c) \<Rightarrow> (Inl NotADirectoryError, fs)
           | Some Dir \<Rightarrow> (Inr (), (p, File True data) # fs)))"

text \<open>
  \<open>str.replace(old, new)\<close> for a non-empty \<open>old\<close>. The source applies it to the whole
  path string with \<open>old = '.zip'\<close>; as \<open>'.zip'\<close> holds no separator, that is the
  replacement in each component.
\<close>

function str_replace :: "string \<Rightarrow> string \<Rightarrow> string \<Rightarrow> string" where
  "str_replace old new s =
     (if s = [] \<or> old = [] then s
      else if prefix old s then new @ str_replace old new (drop (length old) s)
      else hd s # str_replace old new (tl s))"
  by pat_completeness auto
termination
  by (relation "measure (\<lambda>(old, new, s). length s)") (auto simp: neq_Nil_conv)

definition path_replace :: "string \<Rightarrow> string \<Rightarrow> path \<Rightarrow> path" where
  "path_replace old new p = map (str_replace old new) p"

section \<open>BackupRestoreApp.delete_backup\<close>

datatype message = NoMessage | Success | Failed error

definition remove_if_exists :: "path \<Rightarrow> unit io" where
  "remove_if_exists p fs = (if path_exists fs p then os_remove p fs else (Inr (), fs))"

text \<open>
  \<open>yes\<close> is the answer to the confirmation dialog. The result is the message box
  shown: \<open>Success\<close> for "Backup deleted successfully", \<open>Failed e\<close> for "Failed to
  delete backup: e".
\<close>

definition delete_backup :: "bool \<Rightarrow> path \<Rightarrow> filesystem \<Rightarrow> message \<times> filesystem" where
  "delete_backup yes backup_path fs =
     (if yes then
        (case io_bind (os_remove backup_path) (\<lambda>u.
              io_bind (remove_if_exists (path_replace ''.zip'' ''_hashes.json'' backup_path)) (\<lambda>u.
              remove_if_exists (path_replace ''.zip'' ''_notes.txt'' backup_path))) fs of
           (Inr u, fs') \<Rightarrow> (Success, fs')
         | (Inl e, fs') \<Rightarrow> (Failed e, fs'))
      else (NoMessage, fs))"

section \<open>BackupThread.run\<close>

text \<open>
  What \<open>zipfile\<close> sees in an archive: entries with their name and bytes, and entries it
  cannot extract, either because it refuses the entry's header (\<open>BadHeader\<close>, no
  file is written) or because the data fails its check once written (\<open>BadData\<close>). The
  encoding of an archive into the bytes of a file and back is a parameter
  (\<open>zip_bytes\<close>, \<open>unzip\<close>), as is the text of a manifest (\<open>json_dump\<close>).
\<close>

datatype member = Member path bytes | BadHeader path | BadData path bytes

text \<open>
  The loop of \<open>zipf.write(file_path, arcname)\<close> over the files of the second walk;
  \<open>zipf\<close> is the list of the entries written so far, kept when a file cannot be read.
\<close>

fun zip_write_all ::
  "filesystem \<Rightarrow> path \<Rightarrow> path list \<Rightarrow> member list \<Rightarrow> error option \<times> member list" where
  "zip_write_all fs source_dir [] zipf = (None, zipf)"
| "zip_write_all fs source_dir (arcname # rest) zipf =
     (case open_rb fs (source_dir @ arcname) of
        Inl e \<Rightarrow> (Some e, zipf)
      | Inr data \<Rightarrow> zip_write_all fs source_dir rest (zipf @ [Member arcname data]))"

text \<open>
  \<open>timestamp\<close> and \<open>now_iso\<close> are the two readings of the clock. Opening the archive
  for writing creates it; leaving the \<open>with\<close> block, also by an exception, closes it
  over the entries written so far. The result is the signal emitted:
  \<open>backup_completed(backup_path)\<close> or \<open>backup_failed\<close>. An archive that lies inside
  the source tree is read here by the second walk as the empty archive it was on
  creation, where \<open>zipf.write\<close> reads the bytes written so far; the properties of
  \<open>run\<close> below are stated for an archive outside the source tree.
\<close>

definition backup_run ::
  "(bytes \<Rightarrow> string) \<Rightarrow> (member list \<Rightarrow> bytes) \<Rightarrow> (path manifest \<Rightarrow> bytes)
     \<Rightarrow> string \<Rightarrow> string \<Rightarrow> path \<Rightarrow> path \<Rightarrow> path io" where
  "backup_run h zip_bytes json_dump timestamp now_iso source_dir target_dir fs =
     (let backup_name = ''BACKUP_'' @ timestamp;
          backup_path = target_dir @ [backup_name @ ''.zip''];
          file_hashes = hash_tree h fs source_dir
      in case write_file backup_path (zip_bytes []) fs of
           (Inl e, fs1) \<Rightarrow> (Inl e, fs1)
         | (Inr u, fs1) \<Rightarrow>
             (case zip_write_all fs1 source_dir (walk_files fs1 source_dir) [] of
                (Some e, zipf) \<Rightarrow> (Inl e, snd (write_file backup_path (zip_bytes zipf) fs1))
              | (None, zipf) \<Rightarrow>
                  io_bind (write_file backup_path (zip_bytes zipf)) (\<lambda>u.
                  io_bind (write_file (path_replace ''.zip'' ''_hashes.json'' backup_path)
                    (json_dump \<lparr>backup_name = backup_name, created_at = now_iso,
                       file_hashes = file_hashes, total_files = length file_hashes,
                       source_directory = source_dir\<rparr>)) (\<lambda>u.
                  io_return backup_path)) fs1))"

section \<open>RestoreThread.run\<close>

text \<open>\<open>zipfile.ZipFile(path, 'r')\<close>: the entries of the archive the file holds.\<close>

definition zip_open :: "(bytes \<Rightarrow> member list option) \<Rightarrow> path \<Rightarrow> member list io" where
  "zip_open unzip p fs =
     (case open_rb fs p of
        Inl e \<Rightarrow> (Inl e, fs)
      | Inr b \<Rightarrow> (case unzip b of None \<Rightarrow> (Inl BadZipFile, fs) | Some zipf \<Rightarrow> (Inr zipf, fs)))"

text \<open>
  Extracting one entry below \<open>dest\<close>: the directory of the target is made when it does
  not exist, then the entry is opened, which is where a bad header is refused, and the
  target is written.
\<close>

definition make_upperdirs :: "path \<Rightarrow> unit io" where
  "make_upperdirs targetpath fs =
     (if path_exists fs (butlast targetpath) then (Inr (), fs)
      else makedirs (butlast targetpath) False fs)"

definition extract_member :: "path \<Rightarrow> member \<Rightarrow> unit io" where
  "extract_member dest m =
     (case m of
        BadHeader n \<Rightarrow>
          io_bind (make_upperdirs (dest @ n)) (\<lambda>u. io_raise BadZipFile)
      | Member n data \<Rightarrow>
          io_bind (make_upperdirs (dest @ n)) (\<lambda>u. write_file (dest @ n) data)
      | BadData n data \<Rightarrow>
          io_bind (make_upperdirs (dest @ n)) (\<lambda>u.
          io_bind (write_file (dest @ n) data) (\<lambda>u. io_raise BadZipFile)))"

fun extractall :: "path \<Rightarrow> member list \<Rightarrow> unit io" where
  "extractall dest [] fs = (Inr (), fs)"
| "extractall dest (m # zipf) fs =
     (case extract_member dest m fs of
        (Inl e, fs') \<Rightarrow> (Inl e, fs')
      | (Inr u, fs') \<Rightarrow> extractall dest zipf fs')"

definition rmtree_if_exists :: "path \<Rightarrow> unit io" where
  "rmtree_if_exists p fs = (if path_exists fs p then rmtree p fs else (Inr (), fs))"

text \<open>
  The first part of \<open>run\<close>: a fresh \<open>temp_restore\<close> directory beside the archive, and
  the archive extracted into it.
\<close>

definition stage_archive :: "(bytes \<Rightarrow> member list option) \<Rightarrow> path \<Rightarrow> path \<Rightarrow> unit io" where
  "stage_archive unzip backup_path temp_dir =
     io_bind (rmtree_if_exists temp_dir) (\<lambda>u.
     io_bind (makedirs temp_dir False) (\<lambda>u.
     io_bind (zip_open unzip backup_path) (\<lambda>zipf.
     extractall temp_dir zipf)))"

text \<open>
  \<open>os.rename\<close> of a file or of a directory with all below it; what was at the new path
  is replaced.
\<close>

definition rename_tree :: "path \<Rightarrow> path \<Rightarrow> filesystem \<Rightarrow> filesystem" where
  "rename_tree src dst fs =
     [(dst @ drop (length src) (fst e), snd e). e \<leftarrow> fs, prefix src (fst e)]
     @ [e \<leftarrow> fs. \<not> prefix src (fst e) \<and> \<not> prefix dst (fst e)]"

text \<open>
  What \<open>shutil.copytree\<close> manages to copy: the directories and the files it can read.
\<close>

definition copy_readable :: "path \<Rightarrow> path \<Rightarrow> filesystem \<Rightarrow> filesystem" where
  "copy_readable src dst fs =
     [(dst @ drop (length src) (fst e), snd e).
        e \<leftarrow> fs, prefix src (fst e) \<and> (case snd e of Dir \<Rightarrow> True | File r c \<Rightarrow> r)]
     @ [e \<leftarrow> fs. \<not> prefix dst (fst e)]"

text \<open>
  \<open>shutil.move(src, dst)\<close>. Into an existing directory \<open>dst\<close> the source goes under its
  own name, which must be free. \<open>os.rename\<close> is tried first; when it cannot work
  (moving a directory into itself, onto a file, or below a directory that does not
  exist) the copy that \<open>shutil\<close> falls back to decides the outcome.
\<close>

definition move :: "path \<Rightarrow> path \<Rightarrow> unit io" where
  "move src dst fs =
     (let real_dst = (if isdir fs dst then dst @ [last src] else dst)
      in if isdir fs dst \<and> path_exists fs real_dst then (Inl ShutilError, fs)
         else
           (case lookup fs src of
              None \<Rightarrow> (Inl FileNotFoundError, fs)
            | Some (File r c) \<Rightarrow>
                (case lookup fs (butlast real_dst) of
                   None \<Rightarrow> (Inl FileNotFoundError, fs)
                 | Some (File r' c') \<Rightarrow> (Inl NotADirectoryError, fs)
                 | Some Dir \<Rightarrow> (Inr (), rename_tree src real_dst fs))
            | Some Dir \<Rightarrow>
                if prefix src real_dst then (Inl ShutilError, fs)
                else if path_exists fs real_dst then (Inl FileExistsError, fs)
                else if isdir fs (butlast real_dst) then (Inr (), rename_tree src real_dst fs)
                else
                  (case makedirs real_dst False fs of
                     (Inl e, fs') \<Rightarrow> (Inl e, fs')
                   | (Inr u, fs') \<Rightarrow>
                       if list_ex (\<lambda>e. prefix src (fst e)
                              \<and> open_rb fs' (fst e) = Inl PermissionError) fs'
                       then (Inl ShutilError, copy_readable src real_dst fs')
                       else (Inr (), rename_tree src real_dst fs'))))"

text \<open>The loop \<open>for item in extracted_items: shutil.move(...)\<close>.\<close>

fun move_items :: "path \<Rightarrow> path \<Rightarrow> string list \<Rightarrow> unit io" where
  "move_items temp_dir source_dir [] fs = (Inr (), fs)"
| "move_items temp_dir source_dir (item # extracted_items) fs =
     (case move (temp_dir @ [item]) source_dir fs of
        (Inl e, fs') \<Rightarrow> (Inl e, fs')
      | (Inr u, fs') \<Rightarrow> move_items temp_dir source_dir extracted_items fs')"

text \<open>
  The second part of \<open>run\<close>: the destination is removed, the extracted items are moved
  to it, the temporary directory is removed.
\<close>

definition replace_destination :: "path \<Rightarrow> path \<Rightarrow> path io" where
  "replace_destination temp_dir source_dir =
     io_bind (rmtree_if_exists source_dir) (\<lambda>u.
     io_bind (listdir temp_dir) (\<lambda>extracted_items.
     io_bind (\<lambda>fs.
        if length extracted_items = 1 \<and> isdir fs (temp_dir @ [hd extracted_items])
        then move (temp_dir @ [hd extracted_items]) source_dir fs
        else io_bind (makedirs source_dir True) (\<lambda>u.
               move_items temp_dir source_dir extracted_items) fs) (\<lambda>u.
     io_bind (rmtree temp_dir) (\<lambda>u.
     io_return source_dir))))"

text \<open>
  The result is the signal emitted: \<open>restore_completed(source_dir)\<close> or
  \<open>restore_failed\<close>.
\<close>

definition temp_restore :: "path \<Rightarrow> path" where
  "temp_restore backup_path = butlast backup_path @ [''temp_restore'']"

definition restore_run :: "(bytes \<Rightarrow> member list option) \<Rightarrow> path \<Rightarrow> path \<Rightarrow> path io" where
  "restore_run unzip backup_path source_dir =
     io_bind (stage_archive unzip backup_path (temp_restore backup_path)) (\<lambda>u.
     replace_destination (temp_restore backup_path) source_dir)"

section \<open>Temporary directories of the comparison\<close>

definition try_except :: "'a io \<Rightarrow> (error \<Rightarrow> 'a io) \<Rightarrow> 'a io" where
  "try_except body handler fs =
     (case body fs of (Inl e, fs') \<Rightarrow> handler e fs' | (Inr x, fs') \<Rightarrow> (Inr x, fs'))"

text \<open>
  The loop that starts both functions: each temporary directory is removed when it
  exists and made anew.
\<close>

fun fresh_temp_dirs :: "path list \<Rightarrow> unit io" where
  "fresh_temp_dirs [] fs = (Inr (), fs)"
| "fresh_temp_dirs (temp_dir # rest) fs =
     (case io_bind (rmtree_if_exists temp_dir) (\<lambda>u. makedirs temp_dir False) fs of
        (Inl e, fs') \<Rightarrow> (Inl e, fs')
      | (Inr u, fs') \<Rightarrow> fresh_temp_dirs rest fs')"

text \<open>The loop of both \<open>except\<close> handlers: each temporary directory that exists is removed.\<close>

fun remove_temp_dirs :: "path list \<Rightarrow> unit io" where
  "remove_temp_dirs [] fs = (Inr (), fs)"
| "remove_temp_dirs (temp_dir # rest) fs =
     (case rmtree_if_exists temp_dir fs of
        (Inl e, fs') \<Rightarrow> (Inl e, fs')
      | (Inr u, fs') \<Rightarrow> remove_temp_dirs rest fs')"

text \<open>\<open>with zipfile.ZipFile(path, 'r') as zipf: zipf.extractall(dest)\<close>.\<close>

definition extract_backup :: "(bytes \<Rightarrow> member list option) \<Rightarrow> path \<Rightarrow> path \<Rightarrow> unit io" where
  "extract_backup unzip archive_path dest =
     io_bind (zip_open unzip archive_path) (\<lambda>zipf. extractall dest zipf)"

section \<open>CompareThread.compare_backups_legacy\<close>

definition compare_backups_legacy ::
  "(bytes \<Rightarrow> member list option) \<Rightarrow> path \<Rightarrow> path \<Rightarrow> path \<Rightarrow> path differences io" where
  "compare_backups_legacy unzip target_dir source_path compare_path =
     (let temp_source = target_dir @ [''temp_compare_source''];
          temp_compare = target_dir @ [''temp_compare_target'']
      in try_except
           (io_bind (fresh_temp_dirs [temp_source, temp_compare]) (\<lambda>u.
            io_bind (extract_backup unzip source_path temp_source) (\<lambda>u.
            io_bind (extract_backup unzip compare_path temp_compare) (\<lambda>u.
            io_bind (\<lambda>fs. (Inr (get_directory_differences fs temp_source temp_compare), fs))
              (\<lambda>differences.
            io_bind (rmtree temp_source) (\<lambda>u.
            io_bind (rmtree temp_compare) (\<lambda>u.
            io_return differences)))))))
           (\<lambda>e. io_bind (remove_temp_dirs [temp_source, temp_compare]) (\<lambda>u. io_raise e)))"

section \<open>BackupRestoreApp.get_file_diff\<close>

text \<open>
  \<open>open(path, 'r', encoding='utf-8', errors='ignore')\<close> and \<open>readlines()\<close>; how the
  bytes of a file decode into lines is a parameter, as is \<open>difflib.unified_diff\<close>.
\<close>

definition read_lines :: "(bytes \<Rightarrow> string list) \<Rightarrow> path \<Rightarrow> string list io" where
  "read_lines decode p fs =
     (case open_rb fs p of Inl e \<Rightarrow> (Inl e, fs) | Inr c \<Rightarrow> (Inr (decode c), fs))"

fun join_path :: "path \<Rightarrow> string" where
  "join_path [] = []"
| "join_path [c] = c"
| "join_path (c # cs) = c @ ''/'' @ join_path cs"

text \<open>
  The result is the list of diff lines or \<open>None\<close>. The test of the source,
  \<open>not exists(file1_path) or not exists(file2_path)\<close>, is written as the negation of
  a conjunction; its branch returns at once.
\<close>

definition get_file_diff ::
  "(bytes \<Rightarrow> member list option) \<Rightarrow> (bytes \<Rightarrow> string list)
     \<Rightarrow> (string list \<Rightarrow> string list \<Rightarrow> string \<Rightarrow> string \<Rightarrow> string list)
     \<Rightarrow> path \<Rightarrow> string \<Rightarrow> string \<Rightarrow> path \<Rightarrow> string list option io" where
  "get_file_diff unzip decode unified_diff target_dir source_backup compare_backup file_path =
     (let temp_source = target_dir @ [''temp_diff_source''];
          temp_compare = target_dir @ [''temp_diff_compare'']
      in try_except
           (io_bind (fresh_temp_dirs [temp_source, temp_compare]) (\<lambda>u.
            io_bind (extract_backup unzip (target_dir @ [source_backup]) temp_source) (\<lambda>u.
            io_bind (extract_backup unzip (target_dir @ [compare_backup]) temp_compare) (\<lambda>u.
            (\<lambda>fs.
               let file1_path = temp_source @ file_path;
                   file2_path = temp_compare @ file_path
               in if \<not> (path_exists fs file1_path \<and> path_exists fs file2_path)
                  then (Inr None, fs)
                  else
                    io_bind (read_lines decode file1_path) (\<lambda>lines1.
                    io_bind (read_lines decode file2_path) (\<lambda>lines2.
                    io_bind (rmtree temp_source) (\<lambda>u.
                    io_bind (rmtree temp_compare) (\<lambda>u.
                    io_return (Some (unified_diff lines1 lines2
                       (source_backup @ ''/'' @ join_path file_path)
                       (compare_backup @ ''/'' @ join_path file_path))))))) fs)))))
           (\<lambda>e. io_bind (remove_temp_dirs [temp_source, temp_compare]) (\<lambda>u. io_return None)))"

section \<open>Properties of the hash-based comparison\<close>

lemma classify_hashes_added [simp]: "added (classify_hashes s c fs d) = added d"
  by (induction fs arbitrary: d) (simp_all add: Let_def)

lemma classify_hashes_removed [simp]: "removed (classify_hashes s c fs d) = removed d"
  by (induction fs arbitrary: d) (simp_all add: Let_def)

lemma classify_hashes_modified:
  "modified (classify_hashes s c fs d) = modified d @ [f \<leftarrow> fs. map_of s f \<noteq> map_of c f]"
  by (induction fs arbitrary: d) (simp_all add: Let_def)

lemma classify_hashes_unchanged:
  "unchanged (classify_hashes s c fs d) = unchanged d @ [f \<leftarrow> fs. map_of s f = map_of c f]"
  by (induction fs arbitrary: d) (simp_all add: Let_def)

lemma added_eq:
  "added (get_hash_based_differences A B) =
     [f \<leftarrow> dict_keys (file_hashes B). f \<notin> set (dict_keys (file_hashes A))]"
  by (simp add: get_hash_based_differences_def Let_def)

lemma removed_eq:
  "removed (get_hash_based_differences A B) =
     [f \<leftarrow> dict_keys (file_hashes A). f \<notin> set (dict_keys (file_hashes B))]"
  by (simp add: get_hash_based_differences_def Let_def)

lemma modified_eq:
  "modified (get_hash_based_differences A B) =
     [f \<leftarrow> dict_keys (file_hashes A).
        f \<in> set (dict_keys (file_hashes B)) \<and> digest_of A f \<noteq> digest_of B f]"
  by (simp add: get_hash_based_differences_def Let_def classify_hashes_modified digest_of_def)

lemma unchanged_eq:
  "unchanged (get_hash_based_differences A B) =
     [f \<leftarrow> dict_keys (file_hashes A).
        f \<in> set (dict_keys (file_hashes B)) \<and> digest_of A f = digest_of B f]"
  by (simp add: get_hash_based_differences_def Let_def classify_hashes_unchanged digest_of_def)

lemma distinct_dict_keys [simp]: "distinct (dict_keys d)"
  by (simp add: dict_keys_def)

text \<open>
  Claim C1. The hash-based compare classifies the keys of two manifests A and B so that
  added = keys(B) - keys(A), removed = keys(A) - keys(B), and a key common to both is
  in modified when its two digests differ and in unchanged otherwise; no key is listed
  twice, the four lists are pairwise disjoint, and together they hold exactly
  keys(A) \<union> keys(B).
\<close>

theorem hash_based_differences_partition:
  "set (added (get_hash_based_differences A B)) = keys B - keys A
   \<and> set (removed (get_hash_based_differences A B)) = keys A - keys B
   \<and> set (modified (get_hash_based_differences A B))
       = {k \<in> keys A \<inter> keys B. digest_of A k \<noteq> digest_of B k}
   \<and> set (unchanged (get_hash_based_differences A B))
       = {k \<in> keys A \<inter> keys B. digest_of A k = digest_of B k}
   \<and> distinct (added (get_hash_based_differences A B) @ removed (get_hash_based_differences A B)
        @ modified (get_hash_based_differences A B) @ unchanged (get_hash_based_differences A B))
   \<and> set (added (get_hash_based_differences A B)) \<union> set (removed (get_hash_based_differences A B))
       \<union> set (modified (get_hash_based_differences A B))
       \<union> set (unchanged (get_hash_based_differences A B)) = keys A \<union> keys B"
  unfolding added_eq removed_eq modified_eq unchanged_eq keys_def
  by auto

text \<open>
  Claim C9. Swapping the two manifests swaps the roles of added and removed: the added
  set of compare(A,B) is the removed set of compare(B,A), and the removed set of
  compare(A,B) is the added set of compare(B,A).
\<close>

theorem hash_based_differences_symmetry:
  "set (added (get_hash_based_differences A B)) = set (removed (get_hash_based_differences B A))
   \<and> set (removed (get_hash_based_differences A B)) = set (added (get_hash_based_differences B A))"
  unfolding added_eq removed_eq by simp

section \<open>Properties of the legacy comparison\<close>

declare read_loop.simps [simp del]

lemma read_loop_eq: "read_loop f1 f2 = (f1 \<noteq> f2)"
proof (induction f1 f2 rule: read_loop.induct)
  case (1 f1 f2)
  show ?case
  proof (cases "take 8192 f1 \<noteq> take 8192 f2")
    case True
    then have "f1 \<noteq> f2" by auto
    with True show ?thesis by (subst read_loop.simps) simp
  next
    case eq: False
    show ?thesis
    proof (cases "take 8192 f1 = []")
      case True
      with eq have "f1 = []" "f2 = []" by auto
      then show ?thesis by (subst read_loop.simps) simp
    next
      case False
      with eq 1 have ih: "read_loop (drop 8192 f1) (drop 8192 f2) = (drop 8192 f1 \<noteq> drop 8192 f2)"
        by simp
      have "(f1 = f2) = (drop 8192 f1 = drop 8192 f2)"
        using eq by (metis append_take_drop_id)
      with eq False ih show ?thesis by (subst read_loop.simps) simp
    qed
  qed
qed

lemma files_differ_unreadable:
  "open_rb fs p1 = Inl e \<or> open_rb fs p2 = Inl e \<Longrightarrow> files_differ fs p1 p2"
  by (auto simp: files_differ_def split: sum.splits)

lemma files_differ_readable:
  "lookup fs p1 = Some (File True c1) \<Longrightarrow> lookup fs p2 = Some (File True c2) \<Longrightarrow>
   files_differ fs p1 p2 = (c1 \<noteq> c2)"
  by (auto simp: files_differ_def getsize_def open_rb_def read_loop_eq)

lemma open_rb_Inr: "open_rb fs p = Inr c \<Longrightarrow> lookup fs p = Some (File True c)"
  by (auto simp: open_rb_def split: option.splits node.splits if_splits)

lemma classify_files_added [simp]: "added (classify_files fs d1 d2 xs d) = added d"
  by (induction xs arbitrary: d) (simp_all add: Let_def)

lemma classify_files_removed [simp]: "removed (classify_files fs d1 d2 xs d) = removed d"
  by (induction xs arbitrary: d) (simp_all add: Let_def)

lemma classify_files_modified:
  "modified (classify_files fs d1 d2 xs d)
     = modified d @ [f \<leftarrow> xs. files_differ fs (d1 @ f) (d2 @ f)]"
  by (induction xs arbitrary: d) (simp_all add: Let_def)

lemma classify_files_unchanged:
  "unchanged (classify_files fs d1 d2 xs d)
     = unchanged d @ [f \<leftarrow> xs. \<not> files_differ fs (d1 @ f) (d2 @ f)]"
  by (induction xs arbitrary: d) (simp_all add: Let_def)

lemma legacy_added_eq:
  "added (get_directory_differences fs d1 d2)
     = [f \<leftarrow> walk_files fs d2. f \<notin> set (walk_files fs d1)]"
  by (simp add: get_directory_differences_def Let_def)

lemma legacy_removed_eq:
  "removed (get_directory_differences fs d1 d2)
     = [f \<leftarrow> walk_files fs d1. f \<notin> set (walk_files fs d2)]"
  by (simp add: get_directory_differences_def Let_def)

lemma legacy_modified_eq:
  "modified (get_directory_differences fs d1 d2) =
     [f \<leftarrow> walk_files fs d1. f \<in> set (walk_files fs d2) \<and> files_differ fs (d1 @ f) (d2 @ f)]"
  by (simp add: get_directory_differences_def Let_def classify_files_modified)

lemma legacy_unchanged_eq:
  "unchanged (get_directory_differences fs d1 d2) =
     [f \<leftarrow> walk_files fs d1. f \<in> set (walk_files fs d2) \<and> \<not> files_differ fs (d1 @ f) (d2 @ f)]"
  by (simp add: get_directory_differences_def Let_def classify_files_unchanged)

lemma distinct_walk_files [simp]: "distinct (walk_files fs d)"
  by (simp add: walk_files_def)

lemma set_walk_files: "set (walk_files fs d) = {r. r \<noteq> [] \<and> isfile fs (d @ r)}"
proof -
  have k: "isfile fs q \<Longrightarrow> q \<in> fst ` set fs" for q
    by (auto simp: isfile_def lookup_def split: option.splits if_splits node.splits
          dest!: map_of_SomeD intro: rev_image_eqI)
  show ?thesis
    apply (auto simp: walk_files_def strict_prefix_def prefix_def)
    using k by force
qed

lemma file_hashes_tree_manifest [simp]: "file_hashes (tree_manifest h fs d) = hash_tree h fs d"
  by (simp add: tree_manifest_def)

lemma dict_keys_hash_tree [simp]: "dict_keys (hash_tree h fs d) = walk_files fs d"
  by (simp add: dict_keys_def hash_tree_def comp_def)

lemma keys_tree_manifest [simp]: "keys (tree_manifest h fs d) = set (walk_files fs d)"
  by (simp add: keys_def)

lemma digest_of_tree_manifest:
  "f \<in> set (walk_files fs d) \<Longrightarrow>
   digest_of (tree_manifest h fs d) f = Some (calculate_file_hash h fs (d @ f))"
  by (simp add: digest_of_def hash_tree_def map_of_map_restrict)

lemma tree_added_removed:
  "added (get_directory_differences fs d1 d2)
     = added (get_hash_based_differences (tree_manifest h fs d1) (tree_manifest h fs d2))"
  "removed (get_directory_differences fs d1 d2)
     = removed (get_hash_based_differences (tree_manifest h fs d1) (tree_manifest h fs d2))"
  by (simp_all add: legacy_added_eq legacy_removed_eq added_eq removed_eq)

text \<open>
  Claim C3, as stated, fails: a file that is in both trees and can be read in neither
  is modified for the legacy comparison (\<open>files_differ\<close> answers \<open>True\<close> on any
  exception), while hashing gives it the digest \<open>None\<close> on both sides, so the hash
  path calls it unchanged.
\<close>

theorem legacy_differs_from_hash_path_on_unreadable_file:
  "[''f''] \<in> set (modified (get_directory_differences
       [([''a''], Dir), ([''a'', ''f''], File False ''x''),
        ([''b''], Dir), ([''b'', ''f''], File False ''x'')] [''a''] [''b'']))
   \<and> [''f''] \<notin> set (modified (get_hash_based_differences
       (tree_manifest id [([''a''], Dir), ([''a'', ''f''], File False ''x''),
        ([''b''], Dir), ([''b'', ''f''], File False ''x'')] [''a''])
       (tree_manifest id [([''a''], Dir), ([''a'', ''f''], File False ''x''),
        ([''b''], Dir), ([''b'', ''f''], File False ''x'')] [''b''])))"
  by (simp add: legacy_modified_eq modified_eq digest_of_tree_manifest walk_files_def isfile_def
       lookup_def files_differ_def getsize_def open_rb_def calculate_file_hash_def strict_prefix_def)

text \<open>
  Claim C3, amended. For a file that is in both trees and can be read in both, and
  whose two contents the digest function does not map to one digest unless they are
  equal, the legacy comparison calls the file modified exactly when its two digests
  differ, and its modified/unchanged classification is the one the hash path gives on
  the manifests of the same two trees.
\<close>

theorem legacy_matches_hash_path_on_readable_file:
  assumes "f \<in> set (walk_files fs d1)" and "f \<in> set (walk_files fs d2)"
    and "open_rb fs (d1 @ f) = Inr c1" and "open_rb fs (d2 @ f) = Inr c2"
    and "h c1 = h c2 \<Longrightarrow> c1 = c2"
  shows "(f \<in> set (modified (get_directory_differences fs d1 d2))
            \<longleftrightarrow> digest_of (tree_manifest h fs d1) f \<noteq> digest_of (tree_manifest h fs d2) f)
       \<and> (f \<in> set (modified (get_directory_differences fs d1 d2))
            \<longleftrightarrow> f \<in> set (modified (get_hash_based_differences
                  (tree_manifest h fs d1) (tree_manifest h fs d2))))
       \<and> (f \<in> set (unchanged (get_directory_differences fs d1 d2))
            \<longleftrightarrow> f \<in> set (unchanged (get_hash_based_differences
                  (tree_manifest h fs d1) (tree_manifest h fs d2))))"
proof -
  have fd: "files_differ fs (d1 @ f) (d2 @ f) = (c1 \<noteq> c2)"
    using assms(3,4) by (intro files_differ_readable open_rb_Inr)
  have dg: "(digest_of (tree_manifest h fs d1) f \<noteq> digest_of (tree_manifest h fs d2) f)
              = (c1 \<noteq> c2)"
    using assms by (auto simp: digest_of_tree_manifest calculate_file_hash_def)
  show ?thesis
    using assms(1,2) fd dg
    by (simp add: legacy_modified_eq legacy_unchanged_eq modified_eq unchanged_eq)
qed

theorem legacy_matches_hash_path_on_readable_file_witness:
  "[''f''] \<in> set (modified (get_directory_differences
       [([''a''], Dir), ([''a'', ''f''], File True ''x''),
        ([''b''], Dir), ([''b'', ''f''], File True ''y'')] [''a''] [''b'']))
   \<and> [''f''] \<in> set (modified (get_hash_based_differences
       (tree_manifest id [([''a''], Dir), ([''a'', ''f''], File True ''x''),
        ([''b''], Dir), ([''b'', ''f''], File True ''y'')] [''a''])
       (tree_manifest id [([''a''], Dir), ([''a'', ''f''], File True ''x''),
        ([''b''], Dir), ([''b'', ''f''], File True ''y'')] [''b''])))"
  using legacy_matches_hash_path_on_readable_file [of "[''f'']"
      "[([''a''], Dir), ([''a'', ''f''], File True ''x''),
        ([''b''], Dir), ([''b'', ''f''], File True ''y'')]" "[''a'']" "[''b'']" "''x''" "''y''" id]
  by (auto simp: walk_files_def isfile_def lookup_def open_rb_def strict_prefix_def
        digest_of_tree_manifest calculate_file_hash_def)

text \<open>
  Claim C10. A path that is in both manifests with the unavailable marker (\<open>None\<close>, what
  \<open>calculate_file_hash\<close> returns when reading fails) as its digest on both sides is
  unchanged for the hash-based compare, and not modified. The legacy comparison calls
  a file of both trees that it cannot read, on either side, modified.
\<close>

theorem unavailable_digest_unchanged_but_unreadable_file_modified:
  "(k \<in> keys A \<and> k \<in> keys B \<and> digest_of A k = Some None \<and> digest_of B k = Some None
      \<longrightarrow> k \<in> set (unchanged (get_hash_based_differences A B))
          \<and> k \<notin> set (modified (get_hash_based_differences A B)))
   \<and> (open_rb fs p = Inl e \<longrightarrow> calculate_file_hash h fs p = None)
   \<and> (open_rb fs p1 = Inl e \<or> open_rb fs p2 = Inl e \<longrightarrow> files_differ fs p1 p2)
   \<and> (f \<in> set (walk_files fs d1) \<and> f \<in> set (walk_files fs d2)
        \<and> (open_rb fs (d1 @ f) = Inl e \<or> open_rb fs (d2 @ f) = Inl e)
      \<longrightarrow> f \<in> set (modified (get_directory_differences fs d1 d2))
          \<and> f \<notin> set (unchanged (get_directory_differences fs d1 d2)))"
  using files_differ_unreadable [of fs p1 e p2] files_differ_unreadable [of fs "d1 @ f" e "d2 @ f"]
  by (auto simp: modified_eq unchanged_eq keys_def calculate_file_hash_def
        legacy_modified_eq legacy_unchanged_eq)

theorem unavailable_digest_unchanged_but_unreadable_file_modified_witness:
  "''f'' \<in> set (unchanged (get_hash_based_differences
       \<lparr>backup_name = ''A'', created_at = [], file_hashes = [(''f'', None)],
        total_files = 1, source_directory = []\<rparr>
       \<lparr>backup_name = ''B'', created_at = [], file_hashes = [(''f'', None)],
        total_files = 1, source_directory = []\<rparr>))
   \<and> calculate_file_hash id [([''a''], Dir), ([''a'', ''f''], File False ''x''),
        ([''b''], Dir), ([''b'', ''f''], File True ''x'')] [''a'', ''f''] = None
   \<and> files_differ [([''a''], Dir), ([''a'', ''f''], File False ''x''),
        ([''b''], Dir), ([''b'', ''f''], File True ''x'')] [''a'', ''f''] [''b'', ''f'']
   \<and> [''f''] \<in> set (modified (get_directory_differences
       [([''a''], Dir), ([''a'', ''f''], File False ''x''),
        ([''b''], Dir), ([''b'', ''f''], File True ''x'')] [''a''] [''b'']))"
  using unavailable_digest_unchanged_but_unreadable_file_modified
    [of "''f''"
       "\<lparr>backup_name = ''A'', created_at = [], file_hashes = [(''f'', None)],
        total_files = 1, source_directory = []\<rparr>"
       "\<lparr>backup_name = ''B'', created_at = [], file_hashes = [(''f'', None)],
        total_files = 1, source_directory = []\<rparr>"
       "[([''a''], Dir), ([''a'', ''f''], File False ''x''),
        ([''b''], Dir), ([''b'', ''f''], File True ''x'')]"
       "[''a'', ''f'']" PermissionError id "[''a'', ''f'']" "[''b'', ''f'']" "[''f'']" "[''a'']" "[''b'']"]
  by (simp add: keys_def dict_keys_def digest_of_def open_rb_def lookup_def walk_files_def
        isfile_def strict_prefix_def)

section \<open>Properties of the diff labelling\<close>

lemma diff_entry_never_file_header: "fst (diff_entry line) \<noteq> FileHeader"
  by (cases line) (auto simp: diff_entry_def)

lemma add_diff_to_widget_eq:
  "add_diff_to_widget text_widget diff_content = text_widget @ map diff_entry diff_content"
  by (induction diff_content arbitrary: text_widget) simp_all

lemma add_diff_to_widget_no_file_header:
  "count_marker FileHeader (add_diff_to_widget [] diff_content) = 0"
  by (simp add: add_diff_to_widget_eq count_marker_def diff_entry_never_file_header)

text \<open>
  Claim C4 at a file \<open>x.py\<close> whose single line \<open>a\<close> became \<open>b\<close>: the unified diff is the
  two file headers, one hunk header, one removed and one added line. The widget shows
  two lines marked added and two marked removed, and no line marked as a file header:
  the test for \<open>+\<close> and \<open>-\<close> comes before the test for \<open>+++\<close> and \<open>---\<close>.
\<close>

theorem add_diff_to_widget_marks_file_headers_as_changes:
  "add_diff_to_widget []
     [''--- BACKUP_A.zip/x.py'', ''+++ BACKUP_B.zip/x.py'', ''@@ -1 +1 @@'', ''-a'', ''+b'']
   = [(RemovedLine, ''-- BACKUP_A.zip/x.py''), (AddedLine, ''++ BACKUP_B.zip/x.py''),
      (HunkHeader, ''@@ -1 +1 @@''), (RemovedLine, ''a''), (AddedLine, ''b'')]
   \<and> count_marker AddedLine (add_diff_to_widget []
        [''--- BACKUP_A.zip/x.py'', ''+++ BACKUP_B.zip/x.py'', ''@@ -1 +1 @@'', ''-a'', ''+b'']) = 2
   \<and> count_marker RemovedLine (add_diff_to_widget []
        [''--- BACKUP_A.zip/x.py'', ''+++ BACKUP_B.zip/x.py'', ''@@ -1 +1 @@'', ''-a'', ''+b'']) = 2
   \<and> count_marker FileHeader (add_diff_to_widget []
        [''--- BACKUP_A.zip/x.py'', ''+++ BACKUP_B.zip/x.py'', ''@@ -1 +1 @@'', ''-a'', ''+b'']) = 0"
  by (simp add: diff_entry_def count_marker_def)

section \<open>Properties of delete_backup\<close>


lemma lookup_filter_neq:
  "lookup [e \<leftarrow> fs. fst e \<noteq> p] q = (if q = p \<and> p \<noteq> [] then None else lookup fs q)"
  by (induction fs) (auto simp: lookup_def)





declare str_replace.simps [simp del]

lemma str_replace_code_simps:
  "str_replace old new [] = []"
  "str_replace [] new s = s"
  "str_replace (a # old) new (c # cs) =
     (if prefix (a # old) (c # cs) then new @ str_replace (a # old) new (drop (length old) cs)
      else c # str_replace (a # old) new cs)"
  by (subst str_replace.simps, simp)+



text \<open>
  The condition on the manifest path is needed: when a directory is found there, the
  archive is removed, the delete fails with \<open>IsADirectoryError\<close>, and the notes stay.
\<close>

lemma delete_backup_fails_on_directory_manifest:
  "delete_backup True [''store'', ''B.zip'']
     [([''store''], Dir), ([''store'', ''B.zip''], File True ''z''),
      ([''store'', ''B_hashes.json''], Dir), ([''store'', ''B_notes.txt''], File True ''n'')]
   = (Failed IsADirectoryError,
      [([''store''], Dir), ([''store'', ''B_hashes.json''], Dir),
       ([''store'', ''B_notes.txt''], File True ''n'')])"
  by (simp add: delete_backup_def io_bind_def os_remove_def remove_if_exists_def lookup_def
       path_exists_def path_replace_def str_replace_code_simps)

section \<open>Properties of BackupThread.run\<close>

lemma lookup_root [simp]: "lookup fs [] = Some Dir"
  by (simp add: lookup_def)

lemma lookup_Cons:
  "lookup ((p, n) # fs) q = (if q = [] then Some Dir else if q = p then Some n else lookup fs q)"
  by (simp add: lookup_def)

lemma lookup_write_file:
  "q \<noteq> p \<Longrightarrow> lookup (snd (write_file p data fs)) q = lookup fs q"
  by (auto simp: write_file_def lookup_filter_neq lookup_Cons split: option.splits node.splits)

lemma zip_write_all_unreadable:
  "x \<in> set xs \<Longrightarrow> open_rb fs (d @ x) = Inl e \<Longrightarrow> fst (zip_write_all fs d xs zipf) \<noteq> None"
  by (induction xs arbitrary: zipf) (auto split: sum.splits)

lemma hash_tree_unreadable:
  "rel \<in> set (walk_files fs d) \<Longrightarrow> open_rb fs (d @ rel) = Inl e \<Longrightarrow>
   map_of (hash_tree h fs d) rel = Some None"
  by (simp add: hash_tree_def map_of_map_restrict calculate_file_hash_def)

text \<open>
  Claim C6, amended. When reading a file of the source tree fails, the hasher returns
  the unavailable marker \<open>None\<close> instead of raising, and the hashing pass records it
  for that file. The backup does not complete, though: the archive pass reads the same
  file with no guard, so \<open>run\<close> ends in \<open>backup_failed\<close>, having changed nothing but
  the archive path; no manifest is written. (The archive is taken to lie outside the
  source tree.)
\<close>

theorem backup_fails_on_unreadable_file:
  assumes "rel \<in> set (walk_files fs source_dir)"
    and "open_rb fs (source_dir @ rel) = Inl e"
    and "\<not> prefix source_dir (target_dir @ [''BACKUP_'' @ timestamp @ ''.zip''])"
  shows "calculate_file_hash h fs (source_dir @ rel) = None
       \<and> map_of (hash_tree h fs source_dir) rel = Some None
       \<and> isl (fst (backup_run h zip_bytes json_dump timestamp now_iso source_dir target_dir fs))
       \<and> (q \<noteq> target_dir @ [''BACKUP_'' @ timestamp @ ''.zip''] \<longrightarrow>
            lookup (snd (backup_run h zip_bytes json_dump timestamp now_iso source_dir target_dir fs)) q
              = lookup fs q)"
proof -
  let ?bp = "target_dir @ [''BACKUP_'' @ timestamp @ ''.zip'']"
  obtain r fs1 where w: "write_file ?bp (zip_bytes []) fs = (r, fs1)" by fastforce
  have fs1: "lookup fs1 q' = lookup fs q'" if "q' \<noteq> ?bp" for q'
    using lookup_write_file [OF that, of "zip_bytes []" fs] w by simp
  have ne: "source_dir @ rel \<noteq> ?bp" using assms(3) by (metis prefixI)
  have "isfile fs1 (source_dir @ rel)"
    using assms(1) fs1 [OF ne] by (simp add: set_walk_files isfile_def)
  moreover have "rel \<noteq> []" using assms(1) by (simp add: set_walk_files)
  ultimately have in1: "rel \<in> set (walk_files fs1 source_dir)" by (simp add: set_walk_files)
  have "open_rb fs1 (source_dir @ rel) = Inl e"
    using assms(2) fs1 [OF ne] by (simp add: open_rb_def)
  from zip_write_all_unreadable [OF in1 this, of "[]"]
  obtain e' zipf where z: "zip_write_all fs1 source_dir (walk_files fs1 source_dir) [] = (Some e', zipf)"
    by (cases "zip_write_all fs1 source_dir (walk_files fs1 source_dir) []") auto
  have run: "backup_run h zip_bytes json_dump timestamp now_iso source_dir target_dir fs
      = (case r of Inl e \<Rightarrow> (Inl e, fs1)
         | Inr u \<Rightarrow> (Inl e', snd (write_file ?bp (zip_bytes zipf) fs1)))"
    using w z by (simp add: backup_run_def Let_def split: sum.splits)
  show ?thesis
    using assms(1,2) fs1
    by (cases r) (auto simp: run calculate_file_hash_def hash_tree_unreadable lookup_write_file)
qed

text \<open>
  Claim C6, as stated, fails on a source tree whose only file cannot be read: the backup
  ends in \<open>backup_failed\<close> with \<open>PermissionError\<close>, leaving an empty archive and no
  manifest.
\<close>

theorem backup_run_aborts_on_unreadable_file:
  "backup_run id (\<lambda>zipf. ''zip'') (\<lambda>hash_data. ''json'') ''t'' ''now'' [''src''] [''store'']
     [([''src''], Dir), ([''src'', ''f''], File False ''x''), ([''store''], Dir)]
   = (Inl PermissionError,
      [([''store'', ''BACKUP_t.zip''], File True ''zip''),
       ([''src''], Dir), ([''src'', ''f''], File False ''x''), ([''store''], Dir)])"
  by (simp add: backup_run_def write_file_def lookup_def walk_files_def isfile_def
        strict_prefix_def open_rb_def hash_tree_def)

theorem backup_fails_on_unreadable_file_witness:
  "calculate_file_hash id
     [([''src''], Dir), ([''src'', ''f''], File False ''x''), ([''src'', ''g''], File True ''y''),
      ([''store''], Dir)] [''src'', ''f''] = None
   \<and> isl (fst (backup_run id (\<lambda>zipf. ''zip'') (\<lambda>hash_data. ''json'') ''t'' ''now''
        [''src''] [''store'']
        [([''src''], Dir), ([''src'', ''f''], File False ''x''), ([''src'', ''g''], File True ''y''),
         ([''store''], Dir)]))
   \<and> lookup (snd (backup_run id (\<lambda>zipf. ''zip'') (\<lambda>hash_data. ''json'') ''t'' ''now''
        [''src''] [''store'']
        [([''src''], Dir), ([''src'', ''f''], File False ''x''), ([''src'', ''g''], File True ''y''),
         ([''store''], Dir)])) [''store'', ''BACKUP_t_hashes.json''] = None"
  using backup_fails_on_unreadable_file [where rel = "[''f'']" and fs =
     "[([''src''], Dir), ([''src'', ''f''], File False ''x''), ([''src'', ''g''], File True ''y''),
      ([''store''], Dir)]" and source_dir = "[''src'']" and e = PermissionError
     and target_dir = "[''store'']" and timestamp = "''t''"
     and q = "[''store'', ''BACKUP_t_hashes.json'']" and h = id and zip_bytes = "\<lambda>zipf. ''zip''"
     and json_dump = "\<lambda>hash_data. ''json''" and now_iso = "''now''"]
  by (simp add: walk_files_def isfile_def lookup_def strict_prefix_def open_rb_def)

section \<open>Properties of RestoreThread.run\<close>

lemma lookup_filter_not_prefix:
  "lookup [e \<leftarrow> fs. \<not> prefix p (fst e)] q
     = (if q = [] then Some Dir else if prefix p q then None else lookup fs q)"
  by (induction fs) (auto simp: lookup_def)

lemma rmtree_frame:
  "\<not> prefix p q \<Longrightarrow> lookup (snd (rmtree p fs)) q = lookup fs q"
  by (auto simp: rmtree_def lookup_filter_not_prefix split: option.splits node.splits)

lemma rmtree_if_exists_frame:
  "\<not> prefix p q \<Longrightarrow> lookup (snd (rmtree_if_exists p fs)) q = lookup fs q"
  by (simp add: rmtree_if_exists_def rmtree_frame)

lemma mkdir_frame:
  "q \<noteq> p \<Longrightarrow> lookup (snd (mkdir p fs)) q = lookup fs q"
  by (auto simp: mkdir_def lookup_Cons split: option.splits node.splits)

declare makedirs.simps [simp del]

lemma mkdir_exist_ok_frame:
  "q \<noteq> p \<Longrightarrow> lookup (snd (mkdir_exist_ok p exist_ok fs)) q = lookup fs q"
  using mkdir_frame [of q p fs]
  by (auto simp: mkdir_exist_ok_def split: prod.splits sum.splits)

lemma makedirs_frame:
  "\<not> prefix q p \<Longrightarrow> lookup (snd (makedirs p exist_ok fs)) q = lookup fs q"
proof (induction p exist_ok fs rule: makedirs.induct)
  case (1 p exist_ok fs)
  have nb: "\<not> prefix q (butlast p)"
    using 1(2) by (meson prefix_order.trans prefixeq_butlast)
  have qp: "q \<noteq> p" using 1(2) by auto
  show ?case
  proof (cases "p \<noteq> [] \<and> butlast p \<noteq> [] \<and> \<not> path_exists fs (butlast p)")
    case True
    obtain r fs' where m: "makedirs (butlast p) exist_ok fs = (r, fs')" by fastforce
    have "lookup fs' q = lookup fs q" using 1(1) [OF True nb] m by simp
    then show ?thesis
      using True m mkdir_exist_ok_frame [OF qp, of exist_ok fs']
      by (subst makedirs.simps) (auto split: sum.splits)
  next
    case False
    then show ?thesis
      using mkdir_exist_ok_frame [OF qp, of exist_ok fs]
      by (subst makedirs.simps) auto
  qed
qed

lemma make_upperdirs_frame:
  assumes "\<not> prefix q p"
  shows "lookup (snd (make_upperdirs p fs)) q = lookup fs q"
proof -
  have "\<not> prefix q (butlast p)"
    using assms by (meson prefix_order.trans prefixeq_butlast)
  then show ?thesis
    by (simp add: make_upperdirs_def makedirs_frame)
qed

lemma io_bind_frame:
  assumes "\<And>fs. lookup (snd (m fs)) q = lookup fs q"
    and "\<And>x fs. lookup (snd (k x fs)) q = lookup fs q"
  shows "lookup (snd (io_bind m k fs)) q = lookup fs q"
proof -
  obtain r fs' where m: "m fs = (r, fs')" by fastforce
  have 1: "lookup fs' q = lookup fs q" using assms(1) [of fs] m by simp
  show ?thesis
  proof (cases r)
    case (Inl e)
    then show ?thesis using m 1 by (simp add: io_bind_def)
  next
    case (Inr x)
    then show ?thesis using m 1 assms(2) [of x fs'] by (simp add: io_bind_def)
  qed
qed

lemma io_raise_frame: "lookup (snd (io_raise e fs)) q = lookup fs q"
  by (simp add: io_raise_def)

lemma extract_member_frame:
  assumes "\<not> prefix dest q" and "\<not> prefix q dest"
  shows "lookup (snd (extract_member dest m fs)) q = lookup fs q"
proof -
  have np: "\<not> prefix q (dest @ n)" for n
    using assms by (auto simp: prefix_append)
  then have ne: "q \<noteq> dest @ n" for n by auto
  show ?thesis
  proof (cases m)
    case (Member n data)
    show ?thesis
      unfolding Member extract_member_def member.case
      by (rule io_bind_frame) (simp_all add: make_upperdirs_frame np lookup_write_file ne)
  next
    case (BadHeader n)
    show ?thesis
      unfolding BadHeader extract_member_def member.case
      by (rule io_bind_frame) (simp_all add: make_upperdirs_frame np io_raise_frame)
  next
    case (BadData n data)
    have w: "lookup (snd (io_bind (write_file (dest @ n) data) (\<lambda>u. io_raise BadZipFile) fs')) q
               = lookup fs' q" for fs'
      by (rule io_bind_frame) (simp_all add: lookup_write_file ne io_raise_frame)
    show ?thesis
      unfolding BadData extract_member_def member.case
      by (rule io_bind_frame) (simp_all add: make_upperdirs_frame np w)
  qed
qed

lemma extractall_frame:
  assumes "\<not> prefix dest q" and "\<not> prefix q dest"
  shows "lookup (snd (extractall dest zipf fs)) q = lookup fs q"
proof (induction zipf arbitrary: fs)
  case Nil
  show ?case by simp
next
  case (Cons m zipf)
  obtain r fs' where e: "extract_member dest m fs = (r, fs')" by fastforce
  have 1: "lookup fs' q = lookup fs q"
    using extract_member_frame [OF assms, of m fs] e by simp
  show ?case
    using e 1 Cons [of fs'] by (cases r) simp_all
qed

lemma zip_open_frame: "snd (zip_open unzip p fs) = fs"
  by (simp add: zip_open_def split: sum.splits option.splits)

lemma stage_archive_frame:
  assumes "\<not> prefix temp_dir q" and "\<not> prefix q temp_dir"
  shows "lookup (snd (stage_archive unzip backup_path temp_dir fs)) q = lookup fs q"
proof -
  have 3: "lookup (snd (io_bind (zip_open unzip backup_path) (\<lambda>zipf. extractall temp_dir zipf) s)) q
             = lookup s q" for s
    by (rule io_bind_frame) (simp_all add: zip_open_frame extractall_frame assms)
  have 2: "lookup (snd (io_bind (makedirs temp_dir False) (\<lambda>u.
             io_bind (zip_open unzip backup_path) (\<lambda>zipf. extractall temp_dir zipf)) s)) q
             = lookup s q" for s
    by (rule io_bind_frame) (simp_all add: makedirs_frame assms 3)
  show ?thesis
    unfolding stage_archive_def
    by (rule io_bind_frame) (simp_all add: rmtree_if_exists_frame assms 2)
qed

lemma under_disjoint:
  assumes "\<not> prefix a b" and "\<not> prefix b a" and "prefix b q"
  shows "\<not> prefix a q \<and> \<not> prefix q a"
  using assms prefix_same_cases [of a q b] prefix_order.trans [of b q a] by blast

text \<open>
  Claim C2, amended. When the destination and the staging directory \<open>temp_restore\<close>
  (beside the archive) do not overlap, that is, neither lies at or below the other, a
  restore whose staging step fails (making the staging directory, opening the archive
  or extracting it) fails with that error and leaves every path at or below the
  destination as it was.
\<close>

theorem restore_failed_extraction_keeps_destination:
  assumes "\<not> prefix (temp_restore backup_path) source_dir"
    and "\<not> prefix source_dir (temp_restore backup_path)"
    and "fst (stage_archive unzip backup_path (temp_restore backup_path) fs) = Inl e"
    and "prefix source_dir q"
  shows "fst (restore_run unzip backup_path source_dir fs) = Inl e
       \<and> lookup (snd (restore_run unzip backup_path source_dir fs)) q = lookup fs q"
proof -
  let ?st = "stage_archive unzip backup_path (temp_restore backup_path) fs"
  have run: "restore_run unzip backup_path source_dir fs = (Inl e, snd ?st)"
    using assms(3) by (cases ?st) (simp add: restore_run_def io_bind_def)
  have "lookup (snd ?st) q = lookup fs q"
    using under_disjoint [OF assms(1,2,4)] by (intro stage_archive_frame) simp_all
  with run show ?thesis by simp
qed

text \<open>
  Claim C2, as stated for every destination, fails when the destination is the staging
  directory itself: it is emptied before the archive is opened, and stays empty when
  the archive turns out to be unreadable.
\<close>

theorem restore_failed_extraction_empties_staging_destination:
  "restore_run (\<lambda>b. None) [''store'', ''B.zip''] [''store'', ''temp_restore'']
     [([''store''], Dir), ([''store'', ''B.zip''], File True ''junk''),
      ([''store'', ''temp_restore''], Dir),
      ([''store'', ''temp_restore'', ''notes.txt''], File True ''mine'')]
   = (Inl BadZipFile,
      [([''store'', ''temp_restore''], Dir), ([''store''], Dir),
       ([''store'', ''B.zip''], File True ''junk'')])"
  by (simp add: restore_run_def stage_archive_def io_bind_def temp_restore_def
        rmtree_if_exists_def rmtree_def path_exists_def lookup_def makedirs.simps
        mkdir_exist_ok_def mkdir_def zip_open_def open_rb_def)

theorem restore_failed_extraction_keeps_destination_witness:
  "fst (restore_run (\<lambda>b. None) [''store'', ''B.zip''] [''project'']
     [([''store''], Dir), ([''store'', ''B.zip''], File True ''junk''),
      ([''project''], Dir), ([''project'', ''notes.txt''], File True ''mine'')])
     = Inl BadZipFile
   \<and> lookup (snd (restore_run (\<lambda>b. None) [''store'', ''B.zip''] [''project'']
     [([''store''], Dir), ([''store'', ''B.zip''], File True ''junk''),
      ([''project''], Dir), ([''project'', ''notes.txt''], File True ''mine'')]))
       [''project'', ''notes.txt''] = Some (File True ''mine'')"
  using restore_failed_extraction_keeps_destination [where backup_path = "[''store'', ''B.zip'']" and source_dir = "[''project'']"
      and unzip = "\<lambda>b. None" and e = BadZipFile and q = "[''project'', ''notes.txt'']"
      and fs = "[([''store''], Dir), ([''store'', ''B.zip''], File True ''junk''),
      ([''project''], Dir), ([''project'', ''notes.txt''], File True ''mine'')]"]
  by (simp add: stage_archive_def io_bind_def temp_restore_def
        rmtree_if_exists_def path_exists_def lookup_def makedirs.simps
        mkdir_exist_ok_def mkdir_def zip_open_def open_rb_def)

section \<open>Properties of get_file_diff\<close>

text \<open>
  Claim C8 at a file \<open>x.py\<close> that the first archive holds and the second does not:
  \<open>get_file_diff\<close> returns \<open>None\<close> through its early \<open>return\<close>, and both temporary
  directories, with the file extracted from the first archive, are still there.
\<close>

theorem get_file_diff_early_return_leaves_temp_dirs:
  "get_file_diff
     (\<lambda>b. if b = ''A'' then Some [Member [''x.py''] ''a''] else if b = ''B'' then Some [] else None)
     (\<lambda>c. [c]) (\<lambda>lines1 lines2 fromfile tofile. [])
     [''store''] ''A.zip'' ''B.zip'' [''x.py'']
     [([''store''], Dir), ([''store'', ''A.zip''], File True ''A''),
      ([''store'', ''B.zip''], File True ''B'')]
   = (Inr None,
      [([''store'', ''temp_diff_source'', ''x.py''], File True ''a''),
       ([''store'', ''temp_diff_compare''], Dir),
       ([''store'', ''temp_diff_source''], Dir), ([''store''], Dir),
       ([''store'', ''A.zip''], File True ''A''),
       ([''store'', ''B.zip''], File True ''B'')])"
  by (simp add: Let_def get_file_diff_def try_except_def io_bind_def extract_backup_def
        rmtree_if_exists_def path_exists_def lookup_def makedirs.simps mkdir_exist_ok_def
        mkdir_def zip_open_def open_rb_def extract_member_def make_upperdirs_def write_file_def)

lemma get_file_diff_success_removes_temp_dirs:
  "get_file_diff
     (\<lambda>b. if b = ''A'' then Some [Member [''x.py''] ''a'']
          else if b = ''B'' then Some [Member [''x.py''] ''b''] else None)
     (\<lambda>c. [c]) (\<lambda>lines1 lines2 fromfile tofile. [fromfile, tofile])
     [''store''] ''A.zip'' ''B.zip'' [''x.py'']
     [([''store''], Dir), ([''store'', ''A.zip''], File True ''A''),
      ([''store'', ''B.zip''], File True ''B'')]
   = (Inr (Some [''A.zip/x.py'', ''B.zip/x.py'']),
      [([''store''], Dir), ([''store'', ''A.zip''], File True ''A''),
       ([''store'', ''B.zip''], File True ''B'')])"
  by (simp add: Let_def get_file_diff_def try_except_def io_bind_def extract_backup_def
        rmtree_if_exists_def path_exists_def lookup_def makedirs.simps mkdir_exist_ok_def
        mkdir_def zip_open_def open_rb_def extract_member_def make_upperdirs_def write_file_def
        read_lines_def rmtree_def io_return_def)

section \<open>Replacing the destination\<close>










lemma prefix_snoc_same: "prefix (b @ [x]) q \<Longrightarrow> prefix (b @ [y]) q \<Longrightarrow> x = y"
  by (auto simp: prefix_def)























end
